theory Spec2Isabelle
  imports Complex_Main "HOL-Library.Sublist"
begin

section \<open>The TTS engine: data model\<close>

text \<open>
  The engine of \<^verbatim>\<open>tts/coqui.py\<close> and \<^verbatim>\<open>tts/engine_base.py\<close> talks to three
  libraries (the Coqui model, \<^verbatim>\<open>tempfile\<close>, \<^verbatim>\<open>soundfile\<close>) and to the file
  system. Exceptions are values of type \<open>exn\<close>: \<open>ValueError\<close> is what the engine
  itself raises, \<open>AttributeError\<close> is what \<^verbatim>\<open>self.model.tts\<close> raises when
  \<^verbatim>\<open>self.model\<close> is \<^verbatim>\<open>None\<close>, and \<open>LibraryError\<close> is any exception that comes
  out of a library call, with its message.
\<close>

datatype exn = ValueError string | AttributeError | LibraryError string

datatype handle = Handle nat

text \<open>
  What a call does to the outside world is recorded in order: each constructor call
  \<^verbatim>\<open>TTS(model_name).to(device)\<close>, each call of \<^verbatim>\<open>model.tts\<close> (with the handle,
  the text, the reference path if any, and the language), each temporary file
  created, each \<^verbatim>\<open>sf.write\<close> and each \<^verbatim>\<open>unlink\<close>.
\<close>

datatype event =
    Construct string string
  | TtsCall handle string "string option" string
  | CreateTemp string
  | SfWrite string
  | Unlink string

record world =
  files :: "string set"
  events :: "event list"

text \<open>
  The fields of \<^verbatim>\<open>TTSEngineBase.__init__\<close> and \<^verbatim>\<open>CoquiXTTSEngine.__init__\<close>:
  \<^verbatim>\<open>self.model\<close> is \<open>None\<close> or a handle.
\<close>

record engine =
  config :: "string \<rightharpoonup> string"
  model :: "handle option"
  is_loaded :: bool
  model_name :: string
  device :: string

text \<open>
  The outcomes of the library calls of one engine call. \<open>tts_new name dev\<close> is
  \<^verbatim>\<open>TTS(name).to(dev)\<close>; \<open>model_tts h text path language\<close> is
  \<^verbatim>\<open>model.tts(text=..., speaker_wav=..., language=...)\<close> on handle \<open>h\<close>, the path
  absent in default-speaker mode; \<open>tmp_stems\<close> are the candidate names
  \<^verbatim>\<open>tempfile\<close> draws, before the suffix; \<open>sf_write path samples rate\<close> is
  \<^verbatim>\<open>soundfile.write\<close>. Samples are real numbers: the rounding of 32-bit floats is
  outside this model.
\<close>

record env =
  tts_new :: "string \<Rightarrow> string \<Rightarrow> exn + handle"
  model_tts :: "handle \<Rightarrow> string \<Rightarrow> string option \<Rightarrow> string \<Rightarrow> exn + real list"
  tmp_stems :: "string list"
  sf_write :: "string \<Rightarrow> real list \<Rightarrow> nat \<Rightarrow> exn + unit"

definition emit :: "event \<Rightarrow> world \<Rightarrow> world" where
  "emit ev w = w\<lparr>events := events w @ [ev]\<rparr>"

fun is_construct :: "event \<Rightarrow> bool" where
  "is_construct (Construct n d) = True"
| "is_construct ev = False"

fun is_tts_call :: "event \<Rightarrow> bool" where
  "is_tts_call (TtsCall h t p l) = True"
| "is_tts_call ev = False"

fun is_unlink :: "event \<Rightarrow> bool" where
  "is_unlink (Unlink p) = True"
| "is_unlink ev = False"

definition constructions :: "world \<Rightarrow> nat" where
  "constructions w = length (filter is_construct (events w))"

definition tts_calls :: "world \<Rightarrow> event list" where
  "tts_calls w = filter is_tts_call (events w)"

definition unlinks :: "world \<Rightarrow> event list" where
  "unlinks w = filter is_unlink (events w)"

section \<open>Construction and lifecycle\<close>

text \<open>
  \<^verbatim>\<open>_get_device\<close>: the configured device, \<^verbatim>\<open>"auto"\<close> by default; \<^verbatim>\<open>"auto"\<close>
  resolves to cuda, then mps, then cpu. The three flags are
  \<^verbatim>\<open>torch.cuda.is_available()\<close>, \<^verbatim>\<open>hasattr(torch.backends, 'mps')\<close> and
  \<^verbatim>\<open>torch.backends.mps.is_available()\<close>.
\<close>

definition get_device :: "bool \<Rightarrow> bool \<Rightarrow> bool \<Rightarrow> (string \<rightharpoonup> string) \<Rightarrow> string" where
  "get_device cuda has_mps mps cfg =
     (let device = (case cfg ''device'' of None \<Rightarrow> ''auto'' | Some d \<Rightarrow> d)
      in if device = ''auto''
         then (if cuda then ''cuda'' else if has_mps \<and> mps then ''mps'' else ''cpu'')
         else device)"

definition init :: "bool \<Rightarrow> bool \<Rightarrow> bool \<Rightarrow> (string \<rightharpoonup> string) \<Rightarrow> engine" where
  "init cuda has_mps mps cfg =
     \<lparr>config = cfg, model = None, is_loaded = False,
      model_name = (case cfg ''model_path'' of
                      None \<Rightarrow> ''tts_models/multilingual/multi-dataset/xtts_v2''
                    | Some p \<Rightarrow> p),
      device = get_device cuda has_mps mps cfg\<rparr>"

text \<open>
  \<^verbatim>\<open>load_model\<close> has one suspension point, the \<^verbatim>\<open>await\<close> of the executor call.
  \<open>load_model_begin\<close> is the part before it: the constructor call is handed to the
  executor, and its outcome is what the future will hold. \<open>load_model_finish\<close> is
  the part after it: on success the handle is stored and the flag set, on failure
  the exception is raised again and nothing is assigned. The two \<^verbatim>\<open>print\<close> calls
  are left out.
\<close>

definition load_model_begin :: "env \<Rightarrow> engine \<Rightarrow> world \<Rightarrow> (exn + handle) \<times> world" where
  "load_model_begin en e w =
     (tts_new en (model_name e) (device e), emit (Construct (model_name e) (device e)) w)"

definition load_model_finish :: "exn + handle \<Rightarrow> engine \<Rightarrow> (exn + unit) \<times> engine" where
  "load_model_finish r e =
     (case r of
        Inl x \<Rightarrow> (Inl x, e)
      | Inr h \<Rightarrow> (Inr (), e\<lparr>model := Some h, is_loaded := True\<rparr>))"

definition load_model :: "env \<Rightarrow> engine \<Rightarrow> world \<Rightarrow> (exn + unit) \<times> engine \<times> world" where
  "load_model en e w =
     (case load_model_begin en e w of
        (r, w') \<Rightarrow> (case load_model_finish r e of (res, e') \<Rightarrow> (res, e', w')))"

text \<open>\<^verbatim>\<open>unload_model\<close> of the base class.\<close>

definition unload_model :: "engine \<Rightarrow> engine" where
  "unload_model e =
     (if model e \<noteq> None then e\<lparr>model := None, is_loaded := False\<rparr> else e)"

text \<open>The state the spec calls unloaded: the flag is off and no handle is held.\<close>

definition unloaded :: "engine \<Rightarrow> bool" where
  "unloaded e = (\<not> is_loaded e \<and> model e = None)"

section \<open>Synthesis\<close>

text \<open>The class attribute \<^verbatim>\<open>SUPPORTED_LANGUAGES\<close>.\<close>

definition SUPPORTED_LANGUAGES :: "string list" where
  "SUPPORTED_LANGUAGES =
     [''en'', ''es'', ''fr'', ''de'', ''it'', ''pt'', ''pl'', ''tr'',
      ''ru'', ''nl'', ''cs'', ''ar'', ''zh-cn'', ''ja'', ''hu'', ''ko'']"

text \<open>
  What the two f-strings print. \<open>str_int\<close> is \<^verbatim>\<open>str\<close> of a Python integer.
  \<open>repr_str\<close> is \<^verbatim>\<open>repr\<close> of a string that has no quote, backslash or
  unprintable character in it (it is applied to the language codes only), and
  \<open>repr_list\<close> is \<^verbatim>\<open>repr\<close> of a list of such strings.
\<close>

function str_nat :: "nat \<Rightarrow> string" where
  "str_nat n =
     (if n < 10 then [char_of (48 + n)]
      else str_nat (n div 10) @ [char_of (48 + n mod 10)])"
  by pat_completeness auto
termination
  by (relation "measure (\<lambda>n. n)") auto

declare str_nat.simps [simp del]

definition str_int :: "int \<Rightarrow> string" where
  "str_int i = (if i < 0 then ''-'' @ str_nat (nat (- i)) else str_nat (nat i))"

definition repr_str :: "string \<Rightarrow> string" where
  "repr_str s = [CHR 0x27] @ s @ [CHR 0x27]"

fun join :: "string \<Rightarrow> string list \<Rightarrow> string" where
  "join sep [] = []"
| "join sep [x] = x"
| "join sep (x # y # ys) = x @ sep @ join sep (y # ys)"

definition repr_list :: "string list \<Rightarrow> string" where
  "repr_list xs = ''['' @ join '', '' (map repr_str xs) @ '']''"

definition unsupported_language_message :: "string \<Rightarrow> string" where
  "unsupported_language_message language =
     ''Language '' @ [CHR 0x27] @ language @ [CHR 0x27] @ '' not supported. Available: ''
       @ repr_list SUPPORTED_LANGUAGES"

definition text_too_long_message :: "int \<Rightarrow> string" where
  "text_too_long_message max_length =
     ''Text too long. Maximum '' @ str_int max_length @ '' characters allowed.''"

text \<open>
  The argument \<^verbatim>\<open>speaker_wav\<close>: absent, a \<^verbatim>\<open>str\<close>, a \<^verbatim>\<open>Path\<close> (carried as
  the string \<^verbatim>\<open>str(speaker_wav)\<close> gives) or a numpy array of samples.
\<close>

datatype speaker_wav = NoSpeaker | StrPath string | PathObj string | NdArray "real list"

fun is_ndarray :: "speaker_wav \<Rightarrow> bool" where
  "is_ndarray (NdArray a) = True"
| "is_ndarray sw = False"

text \<open>
  \<^verbatim>\<open>tempfile.NamedTemporaryFile(suffix=".wav", delete=False)\<close>: the first candidate
  name that no file has yet is created and returned; \<^verbatim>\<open>tempfile\<close> raises
  \<^verbatim>\<open>FileExistsError\<close> when its candidates run out.
\<close>

definition named_temporary_file :: "string list \<Rightarrow> world \<Rightarrow> (exn + string) \<times> world" where
  "named_temporary_file stems w =
     (case filter (\<lambda>n. n \<notin> files w) (map (\<lambda>s. s @ ''.wav'') stems) of
        [] \<Rightarrow> (Inl (LibraryError ''FileExistsError''), w)
      | n # ns \<Rightarrow> (Inr n, emit (CreateTemp n) (w\<lparr>files := insert n (files w)\<rparr>)))"

text \<open>
  \<^verbatim>\<open>Path(p).unlink(missing_ok=True)\<close>: the file is gone afterwards, whether it
  was there or not. The removal itself is taken to succeed.
\<close>

definition unlink :: "string \<Rightarrow> world \<Rightarrow> world" where
  "unlink p w = emit (Unlink p) (w\<lparr>files := files w - {p}\<rparr>)"

text \<open>
  Lines 77 to 86, the reference audio: a path is used as it is, an array is written
  to a new temporary file at 22050 Hz. The file is there from
  \<^verbatim>\<open>NamedTemporaryFile\<close> on, also when \<^verbatim>\<open>sf.write\<close> raises.
\<close>

definition resolve_speaker :: "env \<Rightarrow> speaker_wav \<Rightarrow> world \<Rightarrow> (exn + string option) \<times> world" where
  "resolve_speaker en sw w =
     (case sw of
        NoSpeaker \<Rightarrow> (Inr None, w)
      | StrPath p \<Rightarrow> (Inr (Some p), w)
      | PathObj p \<Rightarrow> (Inr (Some p), w)
      | NdArray a \<Rightarrow>
          (case named_temporary_file (tmp_stems en) w of
             (Inl x, w1) \<Rightarrow> (Inl x, w1)
           | (Inr n, w1) \<Rightarrow>
               (case sf_write en n a 22050 of
                  Inl x \<Rightarrow> (Inl x, emit (SfWrite n) w1)
                | Inr u \<Rightarrow> (Inr (Some n), emit (SfWrite n) w1))))"

text \<open>Python's truth value of \<^verbatim>\<open>speaker_wav_path\<close>: \<open>None\<close> and the empty string are false.\<close>

fun truthy :: "string option \<Rightarrow> bool" where
  "truthy None = False"
| "truthy (Some p) = (p \<noteq> [])"

text \<open>
  Lines 88 to 107, the model call: voice cloning when the path is true, the default
  speaker otherwise. \<^verbatim>\<open>self.model\<close> is read when the call runs.
\<close>

definition run_tts :: "env \<Rightarrow> engine \<Rightarrow> string \<Rightarrow> string option \<Rightarrow> string \<Rightarrow> world
    \<Rightarrow> (exn + real list) \<times> world" where
  "run_tts en e text path language w =
     (case model e of
        None \<Rightarrow> (Inl AttributeError, w)
      | Some h \<Rightarrow>
          (let arg = (if truthy path then path else None)
           in (model_tts en h text arg language, emit (TtsCall h text arg language) w)))"

text \<open>
  Lines 109 to 111: the file is removed when the path is true and
  \<^verbatim>\<open>speaker_wav\<close> is an array.
\<close>

definition cleanup :: "string option \<Rightarrow> speaker_wav \<Rightarrow> world \<Rightarrow> world" where
  "cleanup path sw w =
     (case path of
        None \<Rightarrow> w
      | Some p \<Rightarrow> if p \<noteq> [] \<and> is_ndarray sw then unlink p w else w)"

text \<open>
  Lines 73 to 117, the \<^verbatim>\<open>try\<close> block. Its \<^verbatim>\<open>except\<close> clause prints and raises
  again, so an exception leaves the block at the point where it arose; the
  \<^verbatim>\<open>unlink\<close> of line 111 is reached only after \<^verbatim>\<open>model.tts\<close> has returned.
  The conversion of line 113 to 32-bit floats is the identity on real samples.
\<close>

definition synthesize_body :: "env \<Rightarrow> string \<Rightarrow> string \<Rightarrow> speaker_wav \<Rightarrow> engine \<Rightarrow> world
    \<Rightarrow> (exn + real list) \<times> world" where
  "synthesize_body en text language sw e w =
     (case resolve_speaker en sw w of
        (Inl x, w1) \<Rightarrow> (Inl x, w1)
      | (Inr path, w1) \<Rightarrow>
          (case run_tts en e text path language w1 of
             (Inl x, w2) \<Rightarrow> (Inl x, w2)
           | (Inr audio, w2) \<Rightarrow>
               (Inr audio, cleanup path sw w2)))"

text \<open>
  \<^verbatim>\<open>kwargs.get("max_length", 500)\<close>; the options are a map from names to
  integers.
\<close>

definition get_max_length :: "(string \<rightharpoonup> int) \<Rightarrow> int" where
  "get_max_length kwargs = (case kwargs ''max_length'' of None \<Rightarrow> 500 | Some m \<Rightarrow> m)"

text \<open>
  \<^verbatim>\<open>synthesize\<close>: the lazy load, the two validations, then the \<^verbatim>\<open>try\<close> block.
  A character of \<open>text\<close> stands for one code point of the Python string, so
  \<open>length\<close> is \<^verbatim>\<open>len\<close>.
\<close>

definition synthesize :: "env \<Rightarrow> string \<Rightarrow> string \<Rightarrow> speaker_wav \<Rightarrow> (string \<rightharpoonup> int)
    \<Rightarrow> engine \<Rightarrow> world \<Rightarrow> (exn + real list) \<times> engine \<times> world" where
  "synthesize en text language sw kwargs e w =
     (case (if \<not> is_loaded e then load_model en e w else (Inr (), e, w)) of
        (Inl x, e1, w1) \<Rightarrow> (Inl x, e1, w1)
      | (Inr u, e1, w1) \<Rightarrow>
          if language \<notin> set SUPPORTED_LANGUAGES
          then (Inl (ValueError (unsupported_language_message language)), e1, w1)
          else if int (length text) > get_max_length kwargs
          then (Inl (ValueError (text_too_long_message (get_max_length kwargs))), e1, w1)
          else (case synthesize_body en text language sw e1 w1 of
                  (r, w2) \<Rightarrow> (r, e1, w2)))"

section \<open>Concurrent calls of \<^verbatim>\<open>load_model\<close>\<close>

text \<open>
  Coroutines on one event loop run one at a time and give way only at an
  \<^verbatim>\<open>await\<close>. A call of \<^verbatim>\<open>load_model\<close> is therefore two atomic steps: from
  \<open>Start\<close>, \<open>load_model_begin\<close> hands the constructor to the executor and the call
  waits for the outcome; from \<open>Waiting\<close>, \<open>load_model_finish\<close> takes the outcome. A
  schedule is the order in which the calls, named by their index, take a step;
  call \<open>i\<close> gets its library outcomes from \<open>envs i\<close>.
\<close>

datatype task = Start | Waiting "exn + handle" | Done "exn + unit"

record sys =
  eng :: engine
  wld :: world
  tasks :: "task list"

definition step :: "(nat \<Rightarrow> env) \<Rightarrow> nat \<Rightarrow> sys \<Rightarrow> sys" where
  "step envs i s =
     (if i < length (tasks s) then
        (case tasks s ! i of
           Start \<Rightarrow>
             (case load_model_begin (envs i) (eng s) (wld s) of
                (r, w') \<Rightarrow> s\<lparr>wld := w', tasks := (tasks s)[i := Waiting r]\<rparr>)
         | Waiting r \<Rightarrow>
             (case load_model_finish r (eng s) of
                (res, e') \<Rightarrow> s\<lparr>eng := e', tasks := (tasks s)[i := Done res]\<rparr>)
         | Done res \<Rightarrow> s)
      else s)"

definition run :: "(nat \<Rightarrow> env) \<Rightarrow> nat list \<Rightarrow> sys \<Rightarrow> sys" where
  "run envs sched s = fold (step envs) sched s"

fun is_start :: "task \<Rightarrow> bool" where
  "is_start Start = True"
| "is_start t = False"

fun is_done :: "task \<Rightarrow> bool" where
  "is_done (Done res) = True"
| "is_done t = False"

definition all_done :: "sys \<Rightarrow> bool" where
  "all_done s = (filter is_done (tasks s) = tasks s)"

text \<open>Two calls of \<^verbatim>\<open>load_model\<close> on one engine, neither yet begun.\<close>

definition two_calls :: "engine \<Rightarrow> world \<Rightarrow> sys" where
  "two_calls e w = \<lparr>eng = e, wld = w, tasks = [Start, Start]\<rparr>"

text \<open>
  The calls that pass their \<^verbatim>\<open>await\<close> during a run, in the order in which they
  do: a step of call \<open>i\<close> resumes it exactly when the call is waiting.
\<close>

fun is_waiting :: "task \<Rightarrow> bool" where
  "is_waiting (Waiting r) = True"
| "is_waiting t = False"

fun resumed :: "(nat \<Rightarrow> env) \<Rightarrow> nat list \<Rightarrow> sys \<Rightarrow> nat list" where
  "resumed envs [] s = []"
| "resumed envs (i # sched) s =
     (if i < length (tasks s) \<and> is_waiting (tasks s ! i) then [i] else [])
       @ resumed envs sched (step envs i s)"

text \<open>
  The invariant of two calls whose constructors return the handles \<open>h0\<close> (call 0)
  and \<open>h1\<close> (call 1), on an engine with model name \<open>mn\<close> and device \<open>dv\<close>: a
  waiting call holds the handle of its own construction, a finished call has
  returned normally, and once a call has finished the engine is loaded with one
  of the two handles.
\<close>

definition loads_inv :: "string \<Rightarrow> string \<Rightarrow> handle \<Rightarrow> handle \<Rightarrow> sys \<Rightarrow> bool" where
  "loads_inv mn dv h0 h1 s =
     (model_name (eng s) = mn \<and> device (eng s) = dv \<and> length (tasks s) = 2
      \<and> tasks s ! 0 \<in> {Start, Waiting (Inr h0), Done (Inr ())}
      \<and> tasks s ! 1 \<in> {Start, Waiting (Inr h1), Done (Inr ())}
      \<and> (filter is_done (tasks s) = []
          \<or> is_loaded (eng s) \<and> (model (eng s) = Some h0 \<or> model (eng s) = Some h1)))"

section \<open>The list of supported languages as an object\<close>

text \<open>
  Python lists are objects with identity. The store holds the list objects, a
  reference is an index into it. \<open>cls\<close> is the reference the class attribute
  \<^verbatim>\<open>SUPPORTED_LANGUAGES\<close> holds. \<^verbatim>\<open>get_supported_languages\<close> returns
  \<^verbatim>\<open>self.SUPPORTED_LANGUAGES.copy()\<close>: a new list object with the same elements.
  \<open>list_assign\<close> is any in-place change of a list object (append, remove,
  clear, item assignment): the object gets new contents.
\<close>

type_synonym store = "string list list"

definition list_copy :: "nat \<Rightarrow> store \<Rightarrow> nat \<times> store" where
  "list_copy r st = (length st, st @ [st ! r])"

definition get_supported_languages :: "nat \<Rightarrow> store \<Rightarrow> nat \<times> store" where
  "get_supported_languages cls st = list_copy cls st"

definition list_assign :: "nat \<Rightarrow> string list \<Rightarrow> store \<Rightarrow> store" where
  "list_assign r xs st = st[r := xs]"

section \<open>Audio utilities\<close>

text \<open>
  numpy computes on IEEE 754 binary floating-point numbers. A value is a finite
  number, plus or minus infinity, or NaN; the two zeros are one value here. A
  format is given by \<open>overflow\<close>, the least magnitude that rounds to infinity,
  and by \<open>rnd\<close>, the rounding of a real of smaller magnitude to the nearest number
  of the format. For 64-bit floats the largest number is \<open>2^1024 - 2^971\<close> and
  half a unit in its last place is \<open>2^970\<close>; for 32-bit floats the largest
  number is \<open>2^128 - 2^104\<close> and half a unit is \<open>2^103\<close>.
\<close>

datatype fl = Fin real | PInf | NInf | NaN

record float_format =
  overflow :: real
  rnd :: "real \<Rightarrow> real"

definition binary64 :: "(real \<Rightarrow> real) \<Rightarrow> float_format" where
  "binary64 r = \<lparr>overflow = 2 ^ 1024 - 2 ^ 970, rnd = r\<rparr>"

definition binary32 :: "(real \<Rightarrow> real) \<Rightarrow> float_format" where
  "binary32 r = \<lparr>overflow = 2 ^ 128 - 2 ^ 103, rnd = r\<rparr>"

text \<open>The result of an operation whose exact value is the real \<open>x\<close>.\<close>

definition fl_round :: "float_format \<Rightarrow> real \<Rightarrow> fl" where
  "fl_round F x =
     (if overflow F \<le> \<bar>x\<bar> then (if 0 < x then PInf else NInf) else Fin (rnd F x))"

fun fl_abs :: "fl \<Rightarrow> fl" where
  "fl_abs (Fin x) = Fin \<bar>x\<bar>"
| "fl_abs PInf = PInf"
| "fl_abs NInf = PInf"
| "fl_abs NaN = NaN"

text \<open>The maximum of two values as \<^verbatim>\<open>np.max\<close> takes it: a NaN wins.\<close>

fun fl_max :: "fl \<Rightarrow> fl \<Rightarrow> fl" where
  "fl_max NaN b = NaN"
| "fl_max a NaN = NaN"
| "fl_max PInf b = PInf"
| "fl_max a PInf = PInf"
| "fl_max NInf b = b"
| "fl_max a NInf = a"
| "fl_max (Fin x) (Fin y) = Fin (max x y)"

text \<open>\<^verbatim>\<open>m == 0\<close>: true of zero only, false of the infinities and of NaN.\<close>

fun fl_is_zero :: "fl \<Rightarrow> bool" where
  "fl_is_zero (Fin x) = (x = 0)"
| "fl_is_zero a = False"

text \<open>
  Division and multiplication. A quotient or product of finite numbers is
  rounded, and is infinite when it overflows; infinity times zero, zero by zero
  and infinity by infinity are NaN; numpy does not raise on any of them.
\<close>

fun fl_div :: "float_format \<Rightarrow> fl \<Rightarrow> fl \<Rightarrow> fl" where
  "fl_div F NaN b = NaN"
| "fl_div F a NaN = NaN"
| "fl_div F (Fin x) (Fin y) =
     (if y = 0 then (if x = 0 then NaN else if 0 < x then PInf else NInf)
      else fl_round F (x / y))"
| "fl_div F (Fin x) PInf = Fin 0"
| "fl_div F (Fin x) NInf = Fin 0"
| "fl_div F PInf (Fin y) = (if 0 \<le> y then PInf else NInf)"
| "fl_div F NInf (Fin y) = (if 0 \<le> y then NInf else PInf)"
| "fl_div F PInf PInf = NaN"
| "fl_div F PInf NInf = NaN"
| "fl_div F NInf PInf = NaN"
| "fl_div F NInf NInf = NaN"

fun fl_mul :: "float_format \<Rightarrow> fl \<Rightarrow> fl \<Rightarrow> fl" where
  "fl_mul F NaN b = NaN"
| "fl_mul F a NaN = NaN"
| "fl_mul F (Fin x) (Fin y) = fl_round F (x * y)"
| "fl_mul F (Fin x) PInf = (if x = 0 then NaN else if 0 < x then PInf else NInf)"
| "fl_mul F (Fin x) NInf = (if x = 0 then NaN else if 0 < x then NInf else PInf)"
| "fl_mul F PInf (Fin y) = (if y = 0 then NaN else if 0 < y then PInf else NInf)"
| "fl_mul F NInf (Fin y) = (if y = 0 then NaN else if 0 < y then NInf else PInf)"
| "fl_mul F PInf PInf = PInf"
| "fl_mul F PInf NInf = NInf"
| "fl_mul F NInf PInf = NInf"
| "fl_mul F NInf NInf = PInf"

text \<open>
  \<^verbatim>\<open>np.abs\<close> and \<^verbatim>\<open>np.max\<close> of a one-dimensional array; \<^verbatim>\<open>np.max\<close> of an
  array with no element raises \<^verbatim>\<open>ValueError\<close>.
\<close>

definition np_abs :: "fl list \<Rightarrow> fl list" where
  "np_abs audio = map fl_abs audio"

definition np_max :: "fl list \<Rightarrow> exn + fl" where
  "np_max xs =
     (case xs of
        [] \<Rightarrow> Inl (ValueError ''zero-size array to reduction operation maximum which has no identity'')
      | x # ys \<Rightarrow> Inr (fold fl_max ys x))"

text \<open>
  \<^verbatim>\<open>AudioProcessor.normalize_audio\<close> of \<^verbatim>\<open>tts/audio.py\<close>, on an array and a
  \<^verbatim>\<open>target_peak\<close> of one format \<open>F\<close> (a float64 array with a Python float): the
  guard of line 33, then the array times the quotient of line 35.
\<close>

definition normalize_audio :: "float_format \<Rightarrow> fl list \<Rightarrow> fl \<Rightarrow> exn + fl list" where
  "normalize_audio F audio target_peak =
     (case np_max (np_abs audio) of
        Inl x \<Rightarrow> Inl x
      | Inr m \<Rightarrow>
          if fl_is_zero m then Inr audio
          else (case np_max (np_abs audio) of
                  Inl x \<Rightarrow> Inl x
                | Inr m2 \<Rightarrow> Inr (map (\<lambda>x. fl_mul F x (fl_div F target_peak m2)) audio)))"

section \<open>Example inputs\<close>

text \<open>
  An engine built from an empty configuration on a machine with no accelerator,
  the same engine after a successful load, a world with no file and no event, and
  library outcomes: everything succeeds, the constructor raises, the model call
  raises.
\<close>

definition example_engine :: engine where
  "example_engine = init False False False Map.empty"

definition loaded_engine :: engine where
  "loaded_engine = example_engine\<lparr>model := Some (Handle 0), is_loaded := True\<rparr>"

definition empty_world :: world where
  "empty_world = \<lparr>files = {}, events = []\<rparr>"

definition ok_env :: env where
  "ok_env = \<lparr>tts_new = (\<lambda>n d. Inr (Handle 1)),
             model_tts = (\<lambda>h t p l. Inr [0, 1 / 2]),
             tmp_stems = [''/tmp/tmpab12''],
             sf_write = (\<lambda>p a r. Inr ())\<rparr>"

definition ok_env2 :: env where
  "ok_env2 = ok_env\<lparr>tts_new := (\<lambda>n d. Inr (Handle 2))\<rparr>"

definition load_fails_env :: env where
  "load_fails_env = ok_env\<lparr>tts_new := (\<lambda>n d. Inl (LibraryError ''out of memory''))\<rparr>"

definition tts_fails_env :: env where
  "tts_fails_env = ok_env\<lparr>model_tts := (\<lambda>h t p l. Inl (LibraryError ''inference failed''))\<rparr>"

text \<open>Two calls whose constructors return different handles.\<close>

definition example_envs :: "nat \<Rightarrow> env" where
  "example_envs i = (if i = 0 then ok_env else ok_env2)"

definition reference_world :: world where
  "reference_world = \<lparr>files = {''/data/ref.wav''}, events = []\<rparr>"

lemmas example_defs =
  example_engine_def loaded_engine_def empty_world_def ok_env_def ok_env2_def
  load_fails_env_def tts_fails_env_def init_def get_device_def

section \<open>Lifecycle theorems\<close>

lemma load_model_fail:
  "tts_new en (model_name e) (device e) = Inl x \<Longrightarrow>
   load_model en e w = (Inl x, e, emit (Construct (model_name e) (device e)) w)"
  by (simp add: load_model_def load_model_begin_def load_model_finish_def)

lemma load_model_ok:
  "tts_new en (model_name e) (device e) = Inr h \<Longrightarrow>
   load_model en e w =
     (Inr (), e\<lparr>model := Some h, is_loaded := True\<rparr>,
      emit (Construct (model_name e) (device e)) w)"
  by (simp add: load_model_def load_model_begin_def load_model_finish_def)

lemma unload_after_load:
  "tts_new en (model_name e) (device e) = Inr h \<Longrightarrow>
   unloaded (unload_model (fst (snd (load_model en e w))))"
  by (simp add: load_model_ok unload_model_def unloaded_def)

text \<open>
  C6. When the model constructor raises on an unloaded engine, \<open>load_model\<close> raises
  the same exception and the engine is exactly as before: still unloaded, no
  handle retained. A later \<open>load_model\<close> whose constructor succeeds then loads it.
\<close>

theorem load_model_failure_keeps_unloaded:
  assumes "unloaded e"
    and "tts_new en (model_name e) (device e) = Inl x"
    and "load_model en e w = (r, e', w')"
    and "tts_new en2 (model_name e) (device e) = Inr h"
    and "load_model en2 e' w' = (r2, e2, w2)"
  shows "r = Inl x \<and> e' = e \<and> unloaded e' \<and> \<not> is_loaded e' \<and> model e' = None
       \<and> r2 = Inr () \<and> is_loaded e2 \<and> model e2 = Some h"
proof -
  from assms(2,3) have first: "r = Inl x" "e' = e"
    by (simp_all add: load_model_fail)
  with assms(4,5) have second: "r2 = Inr ()" "e2 = e\<lparr>model := Some h, is_loaded := True\<rparr>"
    by (simp_all add: load_model_ok)
  from assms(1) first second show ?thesis
    by (simp add: unloaded_def)
qed

theorem load_model_failure_keeps_unloaded_witness:
  "unloaded example_engine
   \<and> tts_new load_fails_env (model_name example_engine) (device example_engine)
       = Inl (LibraryError ''out of memory'')
   \<and> load_model load_fails_env example_engine empty_world
       = (Inl (LibraryError ''out of memory''), example_engine,
          emit (Construct (model_name example_engine) (device example_engine)) empty_world)
   \<and> \<not> is_loaded example_engine \<and> model example_engine = None
   \<and> fst (load_model ok_env example_engine
            (emit (Construct (model_name example_engine) (device example_engine)) empty_world))
       = Inr ()
   \<and> model (fst (snd (load_model ok_env example_engine
            (emit (Construct (model_name example_engine) (device example_engine)) empty_world))))
       = Some (Handle 1)"
proof -
  let ?w = "emit (Construct (model_name example_engine) (device example_engine)) empty_world"
  have a: "unloaded example_engine"
    by (simp add: unloaded_def example_defs)
  have b: "tts_new load_fails_env (model_name example_engine) (device example_engine)
             = Inl (LibraryError ''out of memory'')"
    by (simp add: example_defs)
  have c: "load_model load_fails_env example_engine empty_world
             = (Inl (LibraryError ''out of memory''), example_engine, ?w)"
    using b by (rule load_model_fail)
  have d: "tts_new ok_env (model_name example_engine) (device example_engine) = Inr (Handle 1)"
    by (simp add: example_defs)
  obtain r2 e2 w2 where e: "load_model ok_env example_engine ?w = (r2, e2, w2)"
    by (cases "load_model ok_env example_engine ?w") auto
  from load_model_failure_keeps_unloaded [OF a b c d e] a b c e
  show ?thesis by simp
qed

section \<open>Synthesis theorems\<close>

lemma files_emit [simp]: "files (emit ev w) = files w"
  by (simp add: emit_def)

lemma events_emit [simp]: "events (emit ev w) = events w @ [ev]"
  by (simp add: emit_def)

lemma tts_calls_emit [simp]:
  "tts_calls (emit ev w) = tts_calls w @ (if is_tts_call ev then [ev] else [])"
  by (simp add: tts_calls_def)

lemma constructions_emit [simp]:
  "constructions (emit ev w) = constructions w + (if is_construct ev then 1 else 0)"
  by (simp add: constructions_def)

lemma unlinks_emit [simp]:
  "unlinks (emit ev w) = unlinks w @ (if is_unlink ev then [ev] else [])"
  by (simp add: unlinks_def)

lemma counters_files_update [simp]:
  "tts_calls (w\<lparr>files := fs\<rparr>) = tts_calls w"
  "constructions (w\<lparr>files := fs\<rparr>) = constructions w"
  "unlinks (w\<lparr>files := fs\<rparr>) = unlinks w"
  by (simp_all add: tts_calls_def constructions_def unlinks_def)

lemma synthesize_loaded:
  "is_loaded e \<Longrightarrow> synthesize en text language sw kwargs e w =
     (if language \<notin> set SUPPORTED_LANGUAGES
      then (Inl (ValueError (unsupported_language_message language)), e, w)
      else if int (length text) > get_max_length kwargs
      then (Inl (ValueError (text_too_long_message (get_max_length kwargs))), e, w)
      else (fst (synthesize_body en text language sw e w), e,
            snd (synthesize_body en text language sw e w)))"
  by (simp add: synthesize_def split: prod.splits)

lemma synthesize_load_fails:
  "\<not> is_loaded e \<Longrightarrow> tts_new en (model_name e) (device e) = Inl x \<Longrightarrow>
   synthesize en text language sw kwargs e w =
     (Inl x, e, emit (Construct (model_name e) (device e)) w)"
  by (simp add: synthesize_def load_model_fail)

lemma synthesize_load_ok:
  "\<not> is_loaded e \<Longrightarrow> tts_new en (model_name e) (device e) = Inr h \<Longrightarrow>
   synthesize en text language sw kwargs e w =
     (if language \<notin> set SUPPORTED_LANGUAGES
      then (Inl (ValueError (unsupported_language_message language)),
            e\<lparr>model := Some h, is_loaded := True\<rparr>,
            emit (Construct (model_name e) (device e)) w)
      else if int (length text) > get_max_length kwargs
      then (Inl (ValueError (text_too_long_message (get_max_length kwargs))),
            e\<lparr>model := Some h, is_loaded := True\<rparr>,
            emit (Construct (model_name e) (device e)) w)
      else (fst (synthesize_body en text language sw (e\<lparr>model := Some h, is_loaded := True\<rparr>)
                   (emit (Construct (model_name e) (device e)) w)),
            e\<lparr>model := Some h, is_loaded := True\<rparr>,
            snd (synthesize_body en text language sw (e\<lparr>model := Some h, is_loaded := True\<rparr>)
                   (emit (Construct (model_name e) (device e)) w))))"
  by (simp add: synthesize_def load_model_ok split: prod.splits)

lemma message_names_language: "sublist language (unsupported_language_message language)"
proof -
  have "unsupported_language_message language =
          (''Language '' @ [CHR 0x27]) @ language
            @ ([CHR 0x27] @ '' not supported. Available: '' @ repr_list SUPPORTED_LANGUAGES)"
    by (simp add: unsupported_language_message_def)
  then show ?thesis by (simp only: sublist_appendI)
qed

lemma message_lists_languages:
  "suffix (repr_list SUPPORTED_LANGUAGES) (unsupported_language_message language)"
proof -
  have "unsupported_language_message language =
          (''Language '' @ [CHR 0x27] @ language @ [CHR 0x27] @ '' not supported. Available: '')
            @ repr_list SUPPORTED_LANGUAGES"
    by (simp add: unsupported_language_message_def)
  then show ?thesis by (simp only: suffix_appendI suffix_order.refl)
qed

text \<open>
  C2. A call of \<open>synthesize\<close> with a language that is not in
  \<open>SUPPORTED_LANGUAGES\<close> fails, and \<^verbatim>\<open>model.tts\<close> is not called. When the engine
  is loaded, or its lazy load succeeds, the exception is the \<^verbatim>\<open>ValueError\<close> of
  line 66: its message contains the rejected code and ends with the list of valid
  codes. When the lazy load raises, the exception of the load is what the caller
  gets.
\<close>

theorem unsupported_language_rejected:
  assumes "language \<notin> set SUPPORTED_LANGUAGES"
    and "synthesize en text language sw kwargs e w = (r, e', w')"
  shows "(\<exists>x. r = Inl x) \<and> tts_calls w' = tts_calls w
       \<and> (is_loaded e \<or> (\<exists>h. tts_new en (model_name e) (device e) = Inr h)
            \<longrightarrow> r = Inl (ValueError (unsupported_language_message language)))
       \<and> sublist language (unsupported_language_message language)
       \<and> suffix (repr_list SUPPORTED_LANGUAGES) (unsupported_language_message language)"
proof -
  have main: "(\<exists>x. r = Inl x) \<and> tts_calls w' = tts_calls w
       \<and> (is_loaded e \<or> (\<exists>h. tts_new en (model_name e) (device e) = Inr h)
            \<longrightarrow> r = Inl (ValueError (unsupported_language_message language)))"
  proof (cases "is_loaded e")
    case True
    with assms show ?thesis by (auto simp add: synthesize_loaded)
  next
    case False
    show ?thesis
    proof (cases "tts_new en (model_name e) (device e)")
      case (Inl x)
      with False assms show ?thesis by (auto simp add: synthesize_load_fails)
    next
      case (Inr h)
      with False assms show ?thesis by (auto simp add: synthesize_load_ok)
    qed
  qed
  with message_names_language message_lists_languages show ?thesis by blast
qed

lemma xx_unsupported: "''xx'' \<notin> set SUPPORTED_LANGUAGES"
  by (simp add: SUPPORTED_LANGUAGES_def)

theorem unsupported_language_rejected_witness:
  "''xx'' \<notin> set SUPPORTED_LANGUAGES \<and> is_loaded loaded_engine
   \<and> synthesize ok_env ''hello'' ''xx'' NoSpeaker Map.empty loaded_engine empty_world
       = (Inl (ValueError (unsupported_language_message ''xx'')), loaded_engine, empty_world)
   \<and> tts_calls empty_world = []
   \<and> sublist ''xx'' (unsupported_language_message ''xx'')"
proof -
  have l: "is_loaded loaded_engine" by (simp add: example_defs)
  have s: "synthesize ok_env ''hello'' ''xx'' NoSpeaker Map.empty loaded_engine empty_world
       = (Inl (ValueError (unsupported_language_message ''xx'')), loaded_engine, empty_world)"
    using l xx_unsupported by (simp add: synthesize_loaded)
  from unsupported_language_rejected [OF xx_unsupported s] l s xx_unsupported
  show ?thesis by (simp add: tts_calls_def empty_world_def)
qed

theorem unsupported_language_counterexample:
  "''xx'' \<notin> set SUPPORTED_LANGUAGES
   \<and> fst (synthesize load_fails_env ''hello'' ''xx'' NoSpeaker Map.empty example_engine empty_world)
       = Inl (LibraryError ''out of memory'')
   \<and> fst (synthesize load_fails_env ''hello'' ''xx'' NoSpeaker Map.empty example_engine empty_world)
       \<noteq> Inl (ValueError (unsupported_language_message ''xx''))"
proof -
  have "\<not> is_loaded example_engine" by (simp add: example_defs)
  moreover have "tts_new load_fails_env (model_name example_engine) (device example_engine)
      = Inl (LibraryError ''out of memory'')" by (simp add: example_defs)
  ultimately show ?thesis using xx_unsupported by (simp add: synthesize_load_fails)
qed

lemma resolve_speaker_no_call:
  "tts_calls (snd (resolve_speaker en sw w)) = tts_calls w
   \<and> constructions (snd (resolve_speaker en sw w)) = constructions w
   \<and> unlinks (snd (resolve_speaker en sw w)) = unlinks w"
  by (simp add: resolve_speaker_def named_temporary_file_def
           split: speaker_wav.splits list.splits sum.splits)

lemma run_tts_constructions:
  "constructions (snd (run_tts en e text path language w)) = constructions w
   \<and> files (snd (run_tts en e text path language w)) = files w
   \<and> unlinks (snd (run_tts en e text path language w)) = unlinks w"
  by (simp add: run_tts_def Let_def split: option.splits)

lemma cleanup_constructions:
  "constructions (cleanup path sw w) = constructions w
   \<and> tts_calls (cleanup path sw w) = tts_calls w"
  by (simp add: cleanup_def unlink_def split: option.splits)

lemma synthesize_body_constructions:
  "constructions (snd (synthesize_body en text language sw e w)) = constructions w"
proof -
  obtain r1 w1 where a: "resolve_speaker en sw w = (r1, w1)"
    by (cases "resolve_speaker en sw w") auto
  have c1: "constructions w1 = constructions w"
    using resolve_speaker_no_call [of en sw w] a by simp
  show ?thesis
  proof (cases r1)
    case (Inl x)
    with a c1 show ?thesis by (simp add: synthesize_body_def)
  next
    case (Inr path)
    obtain r2 w2 where b: "run_tts en e text path language w1 = (r2, w2)"
      by (cases "run_tts en e text path language w1") auto
    have c2: "constructions w2 = constructions w1"
      using run_tts_constructions [of en e "text" path language w1] b by simp
    from a Inr b c1 c2 show ?thesis
      by (cases r2) (simp_all add: synthesize_body_def cleanup_constructions)
  qed
qed

text \<open>
  C3. A call of \<open>synthesize\<close> whose text is longer than \<^verbatim>\<open>max_length\<close>, with a
  supported language, on an engine that is loaded or whose lazy load succeeds,
  fails with the \<^verbatim>\<open>ValueError\<close> of line 71, whose message reports the limit;
  \<^verbatim>\<open>model.tts\<close> is not called and no file is touched. The model is constructed
  first when the engine was not loaded, and not at all when it was.
\<close>

theorem text_too_long_rejected:
  assumes "int (length text) > get_max_length kwargs"
    and "language \<in> set SUPPORTED_LANGUAGES"
    and "is_loaded e \<or> tts_new en (model_name e) (device e) = Inr h"
    and "synthesize en text language sw kwargs e w = (r, e', w')"
  shows "r = Inl (ValueError (text_too_long_message (get_max_length kwargs)))
       \<and> text_too_long_message (get_max_length kwargs)
           = ''Text too long. Maximum '' @ str_int (get_max_length kwargs) @ '' characters allowed.''
       \<and> tts_calls w' = tts_calls w \<and> files w' = files w
       \<and> constructions w' = constructions w + (if is_loaded e then 0 else 1)
       \<and> is_loaded e'"
proof (cases "is_loaded e")
  case True
  with assms show ?thesis
    by (auto simp add: synthesize_loaded text_too_long_message_def)
next
  case False
  with assms(3) have "tts_new en (model_name e) (device e) = Inr h" by simp
  with False assms(1,2,4) show ?thesis
    by (auto simp add: synthesize_load_ok text_too_long_message_def)
qed

lemma en_supported: "''en'' \<in> set SUPPORTED_LANGUAGES"
  by (simp add: SUPPORTED_LANGUAGES_def)

lemma default_limit_message:
  "text_too_long_message 500 = ''Text too long. Maximum 500 characters allowed.''"
  by code_simp

theorem text_too_long_rejected_witness:
  "int (length (replicate 501 (CHR ''a''))) > get_max_length Map.empty
   \<and> ''en'' \<in> set SUPPORTED_LANGUAGES \<and> is_loaded loaded_engine
   \<and> synthesize ok_env (replicate 501 (CHR ''a'')) ''en'' NoSpeaker Map.empty
        loaded_engine empty_world
       = (Inl (ValueError ''Text too long. Maximum 500 characters allowed.''),
          loaded_engine, empty_world)
   \<and> constructions empty_world = 0 \<and> tts_calls empty_world = []"
proof -
  have a: "int (length (replicate 501 (CHR ''a''))) > get_max_length Map.empty"
    by (simp add: get_max_length_def)
  have l: "is_loaded loaded_engine" by (simp add: example_defs)
  have l': "is_loaded loaded_engine
      \<or> tts_new ok_env (model_name loaded_engine) (device loaded_engine) = Inr (Handle 1)"
    using l by simp
  have m: "get_max_length Map.empty = 500" by (simp add: get_max_length_def)
  have s: "synthesize ok_env (replicate 501 (CHR ''a'')) ''en'' NoSpeaker Map.empty
        loaded_engine empty_world
       = (Inl (ValueError (text_too_long_message 500)), loaded_engine, empty_world)"
    using l en_supported by (simp add: synthesize_loaded m)
  from text_too_long_rejected [OF a en_supported l' s] a l s en_supported
  show ?thesis
    by (simp add: default_limit_message constructions_def tts_calls_def empty_world_def)
qed

theorem text_too_long_counterexample:
  "length (replicate 501 (CHR ''a'')) = 501 \<and> get_max_length Map.empty = 500
   \<and> \<not> is_loaded example_engine \<and> constructions empty_world = 0
   \<and> fst (synthesize ok_env (replicate 501 (CHR ''a'')) ''en'' NoSpeaker Map.empty
        example_engine empty_world)
       = Inl (ValueError ''Text too long. Maximum 500 characters allowed.'')
   \<and> is_loaded (fst (snd (synthesize ok_env (replicate 501 (CHR ''a'')) ''en'' NoSpeaker
        Map.empty example_engine empty_world)))
   \<and> constructions (snd (snd (synthesize ok_env (replicate 501 (CHR ''a'')) ''en'' NoSpeaker
        Map.empty example_engine empty_world))) = 1"
proof -
  have u: "\<not> is_loaded example_engine" by (simp add: example_defs)
  have c: "tts_new ok_env (model_name example_engine) (device example_engine) = Inr (Handle 1)"
    by (simp add: example_defs)
  have m: "get_max_length Map.empty = 500" by (simp add: get_max_length_def)
  have z: "constructions empty_world = 0" by (simp add: constructions_def empty_world_def)
  show ?thesis
    using u en_supported z
    by (simp add: synthesize_load_ok [OF u c] m default_limit_message)
qed

text \<open>
  C4. \<open>load_model\<close> has no guard of its own: on an engine that is already loaded
  it calls the constructor once more; when that succeeds the handle is replaced
  and the flag stays on, when it raises the engine is unchanged. The guard is in
  \<open>synthesize\<close>: on a loaded engine it constructs no model and leaves the engine,
  handle and flag, as it was.
\<close>

theorem load_model_unguarded_synthesize_guarded:
  assumes "is_loaded e"
    and "load_model en e w = (r, e', w')"
    and "synthesize en text language sw kwargs e w = (r2, e2, w2)"
  shows "constructions w' = constructions w + 1 \<and> is_loaded e'
       \<and> (case tts_new en (model_name e) (device e) of
             Inr h \<Rightarrow> r = Inr () \<and> model e' = Some h
           | Inl x \<Rightarrow> r = Inl x \<and> e' = e)
       \<and> e2 = e \<and> constructions w2 = constructions w"
proof -
  have first: "constructions w' = constructions w + 1 \<and> is_loaded e'
       \<and> (case tts_new en (model_name e) (device e) of
             Inr h \<Rightarrow> r = Inr () \<and> model e' = Some h
           | Inl x \<Rightarrow> r = Inl x \<and> e' = e)"
  proof (cases "tts_new en (model_name e) (device e)")
    case (Inl x)
    with assms(1,2) show ?thesis by (auto simp add: load_model_fail)
  next
    case (Inr h)
    with assms(1,2) show ?thesis by (auto simp add: load_model_ok)
  qed
  have second: "e2 = e \<and> constructions w2 = constructions w"
    using assms(1,3) synthesize_body_constructions [of en "text" language sw e w]
    by (auto simp add: synthesize_loaded split: if_splits)
  from first second show ?thesis by simp
qed

theorem load_model_unguarded_synthesize_guarded_witness:
  "is_loaded loaded_engine
   \<and> load_model ok_env loaded_engine empty_world
       = (Inr (), loaded_engine\<lparr>model := Some (Handle 1), is_loaded := True\<rparr>,
          emit (Construct (model_name loaded_engine) (device loaded_engine)) empty_world)
   \<and> constructions (emit (Construct (model_name loaded_engine) (device loaded_engine))
        empty_world) = constructions empty_world + 1
   \<and> fst (snd (synthesize ok_env ''hello'' ''en'' NoSpeaker Map.empty loaded_engine empty_world))
       = loaded_engine
   \<and> constructions (snd (snd (synthesize ok_env ''hello'' ''en'' NoSpeaker Map.empty
        loaded_engine empty_world))) = constructions empty_world"
proof -
  let ?w = "emit (Construct (model_name loaded_engine) (device loaded_engine)) empty_world"
  have l: "is_loaded loaded_engine" by (simp add: example_defs)
  have c: "tts_new ok_env (model_name loaded_engine) (device loaded_engine) = Inr (Handle 1)"
    by (simp add: example_defs)
  have a: "load_model ok_env loaded_engine empty_world
       = (Inr (), loaded_engine\<lparr>model := Some (Handle 1), is_loaded := True\<rparr>, ?w)"
    using c by (rule load_model_ok)
  obtain r2 e2 w2 where s:
    "synthesize ok_env ''hello'' ''en'' NoSpeaker Map.empty loaded_engine empty_world = (r2, e2, w2)"
    by (cases "synthesize ok_env ''hello'' ''en'' NoSpeaker Map.empty loaded_engine empty_world") auto
  from load_model_unguarded_synthesize_guarded [OF l a s] l a s
  show ?thesis by simp
qed

theorem load_model_idempotent_counterexample:
  "is_loaded loaded_engine \<and> model loaded_engine = Some (Handle 0)
   \<and> constructions empty_world = 0
   \<and> fst (load_model ok_env loaded_engine empty_world) = Inr ()
   \<and> model (fst (snd (load_model ok_env loaded_engine empty_world))) = Some (Handle 1)
   \<and> constructions (snd (snd (load_model ok_env loaded_engine empty_world))) = 1"
proof -
  have c: "tts_new ok_env (model_name loaded_engine) (device loaded_engine) = Inr (Handle 1)"
    by (simp add: example_defs)
  have z: "constructions empty_world = 0" by (simp add: constructions_def empty_world_def)
  have l: "is_loaded loaded_engine \<and> model loaded_engine = Some (Handle 0)"
    by (simp add: example_defs)
  show ?thesis using z l by (simp add: load_model_ok [OF c])
qed

lemma named_temporary_file_fresh:
  "named_temporary_file stems w = (Inr n, w1) \<Longrightarrow>
   n \<notin> files w \<and> files w1 = insert n (files w) \<and> n \<noteq> []"
proof -
  assume a: "named_temporary_file stems w = (Inr n, w1)"
  let ?c = "filter (\<lambda>n. n \<notin> files w) (map (\<lambda>s. s @ ''.wav'') stems)"
  from a obtain ns where c: "?c = n # ns" and w1: "w1 = emit (CreateTemp n) (w\<lparr>files := insert n (files w)\<rparr>)"
    by (auto simp add: named_temporary_file_def split: list.splits)
  have "n \<in> set ?c" using c by simp
  then have "n \<notin> files w" and "n \<in> set (map (\<lambda>s. s @ ''.wav'') stems)" by auto
  then show ?thesis using w1 by auto
qed

lemma named_temporary_file_fail:
  "named_temporary_file stems w = (Inl x, w1) \<Longrightarrow> w1 = w"
  by (auto simp add: named_temporary_file_def split: list.splits)

lemma resolve_speaker_path:
  "sw = StrPath p \<or> sw = PathObj p \<Longrightarrow> resolve_speaker en sw w = (Inr (Some p), w)"
  by (auto simp add: resolve_speaker_def)

lemma resolve_speaker_files:
  "files w \<subseteq> files (snd (resolve_speaker en sw w))"
proof (cases sw)
  case (NdArray a)
  obtain r1 w1 where t: "named_temporary_file (tmp_stems en) w = (r1, w1)"
    by (cases "named_temporary_file (tmp_stems en) w") auto
  show ?thesis
  proof (cases r1)
    case (Inl x)
    with t NdArray named_temporary_file_fail [of "tmp_stems en" w x w1]
    show ?thesis by (simp add: resolve_speaker_def)
  next
    case (Inr n)
    with t NdArray named_temporary_file_fresh [of "tmp_stems en" w n w1]
    show ?thesis by (auto simp add: resolve_speaker_def split: sum.splits)
  qed
qed (simp_all add: resolve_speaker_def)

lemma resolve_speaker_array:
  "resolve_speaker en (NdArray a) w = (Inr path, w1) \<Longrightarrow>
   \<exists>n. path = Some n \<and> n \<noteq> [] \<and> n \<notin> files w \<and> files w1 = insert n (files w)"
proof -
  assume a: "resolve_speaker en (NdArray a) w = (Inr path, w1)"
  obtain r0 w0 where t: "named_temporary_file (tmp_stems en) w = (r0, w0)"
    by (cases "named_temporary_file (tmp_stems en) w") auto
  from a t obtain n where n: "r0 = Inr n" and p: "path = Some n" and w: "w1 = emit (SfWrite n) w0"
    by (auto simp add: resolve_speaker_def split: sum.splits)
  from named_temporary_file_fresh [of "tmp_stems en" w n w0] t n p w
  show ?thesis by simp
qed

lemma synthesize_body_path:
  assumes "sw = StrPath p \<or> sw = PathObj p"
  shows "files (snd (synthesize_body en text language sw e w)) = files w
       \<and> unlinks (snd (synthesize_body en text language sw e w)) = unlinks w"
proof -
  have r: "resolve_speaker en sw w = (Inr (Some p), w)"
    using assms by (rule resolve_speaker_path)
  have c: "cleanup (Some p) sw w2 = w2" for w2
    using assms by (auto simp add: cleanup_def)
  obtain r2 w2 where b: "run_tts en e text (Some p) language w = (r2, w2)"
    by (cases "run_tts en e text (Some p) language w") auto
  from run_tts_constructions [of en e "text" "Some p" language w] b
  have "files w2 = files w \<and> unlinks w2 = unlinks w" by simp
  with r b c show ?thesis
    by (cases r2) (simp_all add: synthesize_body_def)
qed

lemma synthesize_body_files:
  "files w \<subseteq> files (snd (synthesize_body en text language sw e w))"
proof -
  obtain r1 w1 where a: "resolve_speaker en sw w = (r1, w1)"
    by (cases "resolve_speaker en sw w") auto
  have s1: "files w \<subseteq> files w1"
    using resolve_speaker_files [of w en sw] a by simp
  show ?thesis
  proof (cases r1)
    case (Inl x)
    with a s1 show ?thesis by (simp add: synthesize_body_def)
  next
    case (Inr path)
    obtain r2 w2 where b: "run_tts en e text path language w1 = (r2, w2)"
      by (cases "run_tts en e text path language w1") auto
    from run_tts_constructions [of en e "text" path language w1] b
    have f2: "files w2 = files w1" by simp
    show ?thesis
    proof (cases r2)
      case (Inl x)
      with a Inr b s1 f2 show ?thesis by (simp add: synthesize_body_def)
    next
      case (Inr audio)
      have "files w \<subseteq> files (cleanup path sw w2)"
      proof (cases sw)
        case (NdArray arr)
        with a \<open>r1 = Inr path\<close> resolve_speaker_array [of en arr w path w1]
        obtain n where "path = Some n" "n \<notin> files w" "files w1 = insert n (files w)"
          by auto
        with f2 show ?thesis by (auto simp add: cleanup_def unlink_def)
      next
        case NoSpeaker
        with s1 f2 show ?thesis by (simp add: cleanup_def split: option.splits)
      next
        case (StrPath q)
        with s1 f2 show ?thesis by (simp add: cleanup_def split: option.splits)
      next
        case (PathObj q)
        with s1 f2 show ?thesis by (simp add: cleanup_def split: option.splits)
      qed
      with a \<open>r1 = Inr path\<close> b Inr show ?thesis by (simp add: synthesize_body_def)
    qed
  qed
qed

lemma synthesize_files_unlinks:
  "synthesize en text language sw kwargs e w = (r, e', w') \<Longrightarrow>
   files w' = files w \<and> unlinks w' = unlinks w
   \<or> (\<exists>e1 w1. files w1 = files w \<and> unlinks w1 = unlinks w
        \<and> w' = snd (synthesize_body en text language sw e1 w1))"
proof -
  assume a: "synthesize en text language sw kwargs e w = (r, e', w')"
  show ?thesis
  proof (cases "is_loaded e")
    case True
    have "w' = w \<or> w' = snd (synthesize_body en text language sw e w)"
      using a unfolding synthesize_loaded [OF True] by (auto split: if_splits)
    then show ?thesis by auto
  next
    case False
    show ?thesis
    proof (cases "tts_new en (model_name e) (device e)")
      case (Inl x)
      have "w' = emit (Construct (model_name e) (device e)) w"
        using a unfolding synthesize_load_fails [OF False Inl] by auto
      then show ?thesis by simp
    next
      case (Inr h)
      define e1 where "e1 = e\<lparr>model := Some h, is_loaded := True\<rparr>"
      define w1 where "w1 = emit (Construct (model_name e) (device e)) w"
      have f: "files w1 = files w \<and> unlinks w1 = unlinks w"
        by (simp add: w1_def)
      have "w' = w1 \<or> w' = snd (synthesize_body en text language sw e1 w1)"
        using a unfolding synthesize_load_ok [OF False Inr] e1_def w1_def
        by (auto split: if_splits)
      then show ?thesis
      proof
        assume "w' = w1"
        with f show ?thesis by simp
      next
        assume "w' = snd (synthesize_body en text language sw e1 w1)"
        with f show ?thesis by (intro disjI2 exI [of _ e1] exI [of _ w1]) simp
      qed
    qed
  qed
qed

text \<open>
  C8. When the reference audio is given as a path (a \<^verbatim>\<open>str\<close> or a \<^verbatim>\<open>Path\<close>),
  \<open>synthesize\<close> removes no file: whatever the outcome of the call, the set of files
  is the same afterwards, so the caller's file is still there, and no \<^verbatim>\<open>unlink\<close>
  has been issued. Whatever the reference audio is, every file that was there
  before the call is there after it: the only file the engine removes is the
  temporary file it has created itself.
\<close>

theorem caller_file_never_deleted:
  assumes "sw = StrPath p \<or> sw = PathObj p"
    and "p \<in> files w"
    and "synthesize en text language sw kwargs e w = (r, e', w')"
    and "synthesize en text language sw2 kwargs e w = (r2, e2, w2)"
  shows "p \<in> files w' \<and> files w' = files w \<and> unlinks w' = unlinks w
       \<and> files w \<subseteq> files w2"
proof -
  from synthesize_files_unlinks [OF assms(3)]
  have "files w' = files w \<and> unlinks w' = unlinks w"
  proof
    assume "files w' = files w \<and> unlinks w' = unlinks w"
    then show ?thesis .
  next
    assume "\<exists>e1 w1. files w1 = files w \<and> unlinks w1 = unlinks w
        \<and> w' = snd (synthesize_body en text language sw e1 w1)"
    then obtain e1 w1 where "files w1 = files w" "unlinks w1 = unlinks w"
      "w' = snd (synthesize_body en text language sw e1 w1)" by blast
    with synthesize_body_path [OF assms(1), of en "text" language e1 w1]
    show ?thesis by simp
  qed
  moreover from synthesize_files_unlinks [OF assms(4)]
  have "files w \<subseteq> files w2"
  proof
    assume "files w2 = files w \<and> unlinks w2 = unlinks w"
    then show ?thesis by simp
  next
    assume "\<exists>e1 w1. files w1 = files w \<and> unlinks w1 = unlinks w
        \<and> w2 = snd (synthesize_body en text language sw2 e1 w1)"
    then obtain e1 w1 where "files w1 = files w"
      "w2 = snd (synthesize_body en text language sw2 e1 w1)" by blast
    with synthesize_body_files [of w1 en "text" language sw2 e1]
    show ?thesis by simp
  qed
  ultimately show ?thesis using assms(2) by simp
qed

theorem caller_file_never_deleted_witness:
  "''/data/ref.wav'' \<in> files reference_world
   \<and> ''/data/ref.wav'' \<in> files (snd (snd (synthesize tts_fails_env ''hello'' ''en''
        (StrPath ''/data/ref.wav'') Map.empty loaded_engine reference_world)))
   \<and> unlinks (snd (snd (synthesize tts_fails_env ''hello'' ''en''
        (StrPath ''/data/ref.wav'') Map.empty loaded_engine reference_world)))
       = unlinks reference_world
   \<and> files reference_world \<subseteq> files (snd (snd (synthesize tts_fails_env ''hello'' ''en''
        (NdArray [0, 1 / 2]) Map.empty loaded_engine reference_world)))"
proof -
  have a: "StrPath ''/data/ref.wav'' = StrPath ''/data/ref.wav''
         \<or> StrPath ''/data/ref.wav'' = PathObj ''/data/ref.wav''" by simp
  have b: "''/data/ref.wav'' \<in> files reference_world"
    by (simp add: reference_world_def)
  obtain r e' w' where c: "synthesize tts_fails_env ''hello'' ''en''
        (StrPath ''/data/ref.wav'') Map.empty loaded_engine reference_world = (r, e', w')"
    by (cases "synthesize tts_fails_env ''hello'' ''en''
        (StrPath ''/data/ref.wav'') Map.empty loaded_engine reference_world") auto
  obtain r2 e2 w2 where d: "synthesize tts_fails_env ''hello'' ''en''
        (NdArray [0, 1 / 2]) Map.empty loaded_engine reference_world = (r2, e2, w2)"
    by (cases "synthesize tts_fails_env ''hello'' ''en''
        (NdArray [0, 1 / 2]) Map.empty loaded_engine reference_world") auto
  from caller_file_never_deleted [OF a b c d] b c d
  show ?thesis by simp
qed

lemma synthesize_body_success_files:
  assumes "synthesize_body en text language sw e w = (Inr audio, w')"
  shows "files w' = files w"
proof -
  obtain r1 w1 where a: "resolve_speaker en sw w = (r1, w1)"
    by (cases "resolve_speaker en sw w") auto
  from assms a obtain path where p: "r1 = Inr path"
    by (cases r1) (auto simp add: synthesize_body_def)
  obtain r2 w2 where b: "run_tts en e text path language w1 = (r2, w2)"
    by (cases "run_tts en e text path language w1") auto
  from run_tts_constructions [of en e "text" path language w1] b
  have f2: "files w2 = files w1" by simp
  from assms a p b have w': "w' = cleanup path sw w2"
    by (cases r2) (auto simp add: synthesize_body_def)
  show ?thesis
  proof (cases sw)
    case (NdArray arr)
    with a p resolve_speaker_array [of en arr w path w1]
    obtain n where "path = Some n" "n \<noteq> []" "n \<notin> files w" "files w1 = insert n (files w)"
      by auto
    with f2 w' NdArray show ?thesis by (auto simp add: cleanup_def unlink_def)
  next
    case NoSpeaker
    then have "resolve_speaker en sw w = (Inr None, w)"
      by (simp add: resolve_speaker_def)
    with a p have "path = None" "w1 = w" by simp_all
    with f2 w' show ?thesis by (simp add: cleanup_def)
  next
    case (StrPath q)
    then have "resolve_speaker en sw w = (Inr (Some q), w)"
      by (simp add: resolve_speaker_def)
    with a p have "path = Some q" "w1 = w" by simp_all
    with f2 w' StrPath show ?thesis by (simp add: cleanup_def)
  next
    case (PathObj q)
    then have "resolve_speaker en sw w = (Inr (Some q), w)"
      by (simp add: resolve_speaker_def)
    with a p have "path = Some q" "w1 = w" by simp_all
    with f2 w' PathObj show ?thesis by (simp add: cleanup_def)
  qed
qed

lemma temp_file_removed_on_success:
  "synthesize ok_env ''hello'' ''en'' (NdArray [0, 1 / 2]) Map.empty loaded_engine empty_world
     = (Inr [0, 1 / 2], loaded_engine,
        \<lparr>files = {},
         events = [CreateTemp ''/tmp/tmpab12.wav'', SfWrite ''/tmp/tmpab12.wav'',
                   TtsCall (Handle 0) ''hello'' (Some ''/tmp/tmpab12.wav'') ''en'',
                   Unlink ''/tmp/tmpab12.wav'']\<rparr>)"
proof -
  have l: "is_loaded loaded_engine" by (simp add: example_defs)
  show ?thesis
    unfolding synthesize_loaded [OF l]
    by (simp add: en_supported get_max_length_def synthesize_body_def resolve_speaker_def
          named_temporary_file_def run_tts_def cleanup_def unlink_def emit_def example_defs)
qed

text \<open>
  C1. The call that shows the defect: a loaded engine, a supported language, a
  short text, the reference audio as an array, and a model call that raises. The
  call raises the model's exception, no \<^verbatim>\<open>unlink\<close> has been issued, and the
  temporary file the call created is still there.
\<close>

theorem temp_file_left_when_model_raises:
  "synthesize tts_fails_env ''hello'' ''en'' (NdArray [0, 1 / 2]) Map.empty loaded_engine empty_world
     = (Inl (LibraryError ''inference failed''), loaded_engine,
        \<lparr>files = {''/tmp/tmpab12.wav''},
         events = [CreateTemp ''/tmp/tmpab12.wav'', SfWrite ''/tmp/tmpab12.wav'',
                   TtsCall (Handle 0) ''hello'' (Some ''/tmp/tmpab12.wav'') ''en'']\<rparr>)"
proof -
  have l: "is_loaded loaded_engine" by (simp add: example_defs)
  show ?thesis
    unfolding synthesize_loaded [OF l]
    by (simp add: en_supported get_max_length_def synthesize_body_def resolve_speaker_def
          named_temporary_file_def run_tts_def cleanup_def unlink_def emit_def example_defs)
qed

section \<open>Audio theorems\<close>

lemma normalize_audio_empty_raises:
  "normalize_audio F [] target_peak
     = Inl (ValueError ''zero-size array to reduction operation maximum which has no identity'')"
  by (simp add: normalize_audio_def np_max_def np_abs_def)

lemma fold_max_zero: "set ys \<subseteq> {Fin 0} \<Longrightarrow> fold fl_max ys (Fin 0) = Fin 0"
  by (induction ys) auto

lemma normalize_audio_silent:
  assumes "audio \<noteq> []" and "set audio \<subseteq> {Fin 0}"
  shows "normalize_audio F audio target_peak = Inr audio"
proof -
  from assms obtain ys where a: "audio = Fin 0 # ys" and ys: "set ys \<subseteq> {Fin 0}"
    by (cases audio) auto
  from ys have "set (map fl_abs ys) \<subseteq> {Fin 0}" by auto
  then have "fold fl_max (map fl_abs ys) (Fin 0) = Fin 0" by (rule fold_max_zero)
  then show ?thesis by (simp add: normalize_audio_def np_max_def np_abs_def a)
qed

text \<open>
  C5. The call that shows the defect: a 64-bit buffer whose largest sample is the
  smallest positive number of the format, \<open>2^-1074\<close>, followed by a zero sample,
  and a target peak of 1. The peak is not zero, so the guard lets the call
  through; the quotient overflows to infinity, and the result holds an infinite
  sample and a NaN.
\<close>

theorem normalize_audio_subnormal_peak:
  "normalize_audio (binary64 r) [Fin (1 / 2 ^ 1074), Fin 0] (Fin 1) = Inr [PInf, NaN]"
  by (simp add: normalize_audio_def np_max_def np_abs_def fl_round_def binary64_def)

lemma normalize_audio_subnormal_peak32:
  "normalize_audio (binary32 r) [Fin (1 / 2 ^ 149), Fin 0] (Fin 1) = Inr [PInf, NaN]"
  by (simp add: normalize_audio_def np_max_def np_abs_def fl_round_def binary32_def)

section \<open>The returned language list\<close>

lemma supported_languages_length: "length SUPPORTED_LANGUAGES = 16"
  by (simp add: SUPPORTED_LANGUAGES_def)

text \<open>
  C10. \<open>get_supported_languages\<close> returns a new list object that holds the 16
  codes of the class attribute and leaves every object of the store as it was.
  Whatever is then done to the returned list, the class attribute still holds
  the 16 codes, and the next call returns again a new object with the same 16
  codes.
\<close>

theorem get_supported_languages_fresh_copy:
  assumes "cls < length st"
    and "st ! cls = SUPPORTED_LANGUAGES"
    and "get_supported_languages cls st = (r, st1)"
    and "get_supported_languages cls (list_assign r xs st1) = (r2, st2)"
  shows "st1 ! r = SUPPORTED_LANGUAGES \<and> length (st1 ! r) = 16 \<and> r \<noteq> cls
       \<and> take (length st) st1 = st
       \<and> list_assign r xs st1 ! r = xs
       \<and> list_assign r xs st1 ! cls = SUPPORTED_LANGUAGES
       \<and> st2 ! r2 = SUPPORTED_LANGUAGES \<and> r2 \<noteq> r \<and> r2 \<noteq> cls"
proof -
  from assms(3) have r: "r = length st" and st1: "st1 = st @ [st ! cls]"
    by (simp_all add: get_supported_languages_def list_copy_def)
  let ?st = "list_assign r xs st1"
  have len: "length ?st = Suc (length st)"
    by (simp add: list_assign_def st1)
  have cls: "?st ! cls = SUPPORTED_LANGUAGES"
    using assms(1,2) by (simp add: list_assign_def st1 r nth_append)
  from assms(4) have r2: "r2 = length ?st" and st2: "st2 = ?st @ [?st ! cls]"
    by (simp_all add: get_supported_languages_def list_copy_def)
  have "st1 ! r = SUPPORTED_LANGUAGES"
    using assms(2) by (simp add: st1 r)
  moreover have "?st ! r = xs"
    by (simp add: list_assign_def st1 r)
  moreover have "st2 ! r2 = SUPPORTED_LANGUAGES"
    using cls by (simp add: st2 r2)
  moreover have "take (length st) st1 = st"
    by (simp add: st1)
  ultimately show ?thesis
    using assms(1) cls len r r2 by (simp add: supported_languages_length)
qed

theorem get_supported_languages_fresh_copy_witness:
  "(0::nat) < length [SUPPORTED_LANGUAGES] \<and> [SUPPORTED_LANGUAGES] ! 0 = SUPPORTED_LANGUAGES
   \<and> get_supported_languages 0 [SUPPORTED_LANGUAGES]
       = (1, [SUPPORTED_LANGUAGES, SUPPORTED_LANGUAGES])
   \<and> list_assign 1 [''xx''] [SUPPORTED_LANGUAGES, SUPPORTED_LANGUAGES]
       = [SUPPORTED_LANGUAGES, [''xx'']]
   \<and> get_supported_languages 0 [SUPPORTED_LANGUAGES, [''xx'']]
       = (2, [SUPPORTED_LANGUAGES, [''xx''], SUPPORTED_LANGUAGES])"
proof -
  have a: "(0::nat) < length [SUPPORTED_LANGUAGES]" by simp
  have b: "[SUPPORTED_LANGUAGES] ! 0 = SUPPORTED_LANGUAGES" by simp
  have c: "get_supported_languages 0 [SUPPORTED_LANGUAGES]
       = (1, [SUPPORTED_LANGUAGES, SUPPORTED_LANGUAGES])"
    by (simp add: get_supported_languages_def list_copy_def)
  have d: "list_assign 1 [''xx''] [SUPPORTED_LANGUAGES, SUPPORTED_LANGUAGES]
       = [SUPPORTED_LANGUAGES, [''xx'']]"
    by (simp add: list_assign_def)
  have e: "get_supported_languages 0
             (list_assign 1 [''xx''] [SUPPORTED_LANGUAGES, SUPPORTED_LANGUAGES])
       = (2, [SUPPORTED_LANGUAGES, [''xx''], SUPPORTED_LANGUAGES])"
    by (simp add: get_supported_languages_def list_copy_def list_assign_def)
  from get_supported_languages_fresh_copy [OF a b c e] a b c d e
  show ?thesis by (simp add: list_assign_def)
qed

section \<open>Concurrent loads\<close>

lemma count_update:
  "i < length xs \<Longrightarrow>
   length (filter P (xs[i := y])) + (if P (xs ! i) then 1 else 0)
     = length (filter P xs) + (if P y then 1 else 0)"
proof (induction xs arbitrary: i)
  case Nil
  then show ?case by simp
next
  case (Cons x xs)
  show ?case
  proof (cases i)
    case 0
    then show ?thesis by simp
  next
    case (Suc j)
    with Cons.prems have "j < length xs" by simp
    from Cons.IH [OF this] Suc show ?thesis by simp
  qed
qed

lemma step_length [simp]: "length (tasks (step envs i s)) = length (tasks s)"
  by (simp add: step_def split: task.splits prod.splits)

lemma step_pending:
  "constructions (wld (step envs i s)) + length (filter is_start (tasks (step envs i s)))
     = constructions (wld s) + length (filter is_start (tasks s))"
proof (cases "i < length (tasks s)")
  case False
  then show ?thesis by (simp add: step_def)
next
  case True
  show ?thesis
  proof (cases "tasks s ! i")
    case Start
    have "length (filter is_start ((tasks s)[i := Waiting r])) + 1
            = length (filter is_start (tasks s))" for r
      using count_update [OF True, of is_start "Waiting r"] Start by simp
    with True Start show ?thesis
      by (simp add: step_def load_model_begin_def)
  next
    case (Waiting r)
    have "length (filter is_start ((tasks s)[i := Done res]))
            = length (filter is_start (tasks s))" for res
      using count_update [OF True, of is_start "Done res"] Waiting by simp
    with True Waiting show ?thesis
      by (simp add: step_def split: prod.splits)
  next
    case (Done res)
    with True show ?thesis by (simp add: step_def)
  qed
qed

lemma run_pending:
  "constructions (wld (run envs sched s)) + length (filter is_start (tasks (run envs sched s)))
     = constructions (wld s) + length (filter is_start (tasks s))"
proof (induction sched arbitrary: s)
  case Nil
  then show ?case by (simp add: run_def)
next
  case (Cons i sched)
  have "run envs (i # sched) s = run envs sched (step envs i s)"
    by (simp add: run_def)
  with Cons.IH [of "step envs i s"] step_pending [of envs i s]
  show ?case by simp
qed

lemma all_done_no_start: "all_done s \<Longrightarrow> filter is_start (tasks s) = []"
proof -
  assume "all_done s"
  then have "\<forall>t \<in> set (tasks s). is_done t"
    by (simp add: all_done_def filter_id_conv)
  moreover have "is_done t \<Longrightarrow> \<not> is_start t" for t by (cases t) simp_all
  ultimately show ?thesis by (auto simp add: filter_empty_conv)
qed

lemma step_inv:
  assumes c0: "tts_new (envs 0) mn dv = Inr h0"
    and c1: "tts_new (envs (Suc 0)) mn dv = Inr h1"
    and inv: "loads_inv mn dv h0 h1 s"
  shows "loads_inv mn dv h0 h1 (step envs i s)"
proof (cases "i < length (tasks s)")
  case False
  with inv show ?thesis by (simp add: step_def)
next
  case True
  from inv have mn: "model_name (eng s) = mn" and dv: "device (eng s) = dv"
    and len: "length (tasks s) = 2"
    and t0: "tasks s ! 0 \<in> {Start, Waiting (Inr h0), Done (Inr ())}"
    and t1: "tasks s ! 1 \<in> {Start, Waiting (Inr h1), Done (Inr ())}"
    and ld: "filter is_done (tasks s) = []
          \<or> is_loaded (eng s) \<and> (model (eng s) = Some h0 \<or> model (eng s) = Some h1)"
    by (simp_all add: loads_inv_def)
  from len obtain a b where ab: "tasks s = [a, b]"
    by (auto simp add: numeral_2_eq_2 length_Suc_conv)
  from True len have i: "i = 0 \<or> i = Suc 0" by auto
  show ?thesis
  proof (cases "tasks s ! i")
    case Start
    let ?r = "tts_new (envs i) mn dv"
    have st: "step envs i s
        = s\<lparr>wld := emit (Construct mn dv) (wld s), tasks := (tasks s)[i := Waiting ?r]\<rparr>"
      using True Start mn dv by (simp add: step_def load_model_begin_def)
    from i show ?thesis
    proof
      assume "i = 0"
      with Start ab t0 t1 ld c0 mn dv show ?thesis
        unfolding st by (auto simp add: loads_inv_def)
    next
      assume "i = Suc 0"
      with Start ab t0 t1 ld c1 mn dv show ?thesis
        unfolding st by (auto simp add: loads_inv_def)
    qed
  next
    case (Waiting r)
    from i show ?thesis
    proof
      assume i0: "i = 0"
      with Waiting ab t0 have r: "r = Inr h0" by auto
      have st: "step envs i s
          = s\<lparr>eng := (eng s)\<lparr>model := Some h0, is_loaded := True\<rparr>,
              tasks := (tasks s)[i := Done (Inr ())]\<rparr>"
        using True Waiting r by (simp add: step_def load_model_finish_def)
      from i0 ab t0 t1 mn dv show ?thesis
        unfolding st by (auto simp add: loads_inv_def)
    next
      assume i1: "i = Suc 0"
      with Waiting ab t1 have r: "r = Inr h1" by auto
      have st: "step envs i s
          = s\<lparr>eng := (eng s)\<lparr>model := Some h1, is_loaded := True\<rparr>,
              tasks := (tasks s)[i := Done (Inr ())]\<rparr>"
        using True Waiting r by (simp add: step_def load_model_finish_def)
      from i1 ab t0 t1 mn dv show ?thesis
        unfolding st by (auto simp add: loads_inv_def)
    qed
  next
    case (Done res)
    with True inv show ?thesis by (simp add: step_def)
  qed
qed

lemma run_inv:
  assumes "tts_new (envs 0) mn dv = Inr h0"
    and "tts_new (envs (Suc 0)) mn dv = Inr h1"
  shows "loads_inv mn dv h0 h1 s \<Longrightarrow> loads_inv mn dv h0 h1 (run envs sched s)"
proof (induction sched arbitrary: s)
  case Nil
  then show ?case by (simp add: run_def)
next
  case (Cons i sched)
  have "run envs (i # sched) s = run envs sched (step envs i s)"
    by (simp add: run_def)
  with Cons.IH [OF step_inv [OF assms Cons.prems]] show ?case by simp
qed

lemma two_calls_inv: "loads_inv (model_name e) (device e) h0 h1 (two_calls e w)"
  by (simp add: loads_inv_def two_calls_def)

lemma inv_all_done:
  assumes "loads_inv mn dv h0 h1 s" and "all_done s"
  shows "tasks s = [Done (Inr ()), Done (Inr ())]
       \<and> is_loaded (eng s) \<and> (model (eng s) = Some h0 \<or> model (eng s) = Some h1)"
proof -
  from assms(1) have len: "length (tasks s) = 2"
    and t0: "tasks s ! 0 \<in> {Start, Waiting (Inr h0), Done (Inr ())}"
    and t1: "tasks s ! 1 \<in> {Start, Waiting (Inr h1), Done (Inr ())}"
    and ld: "filter is_done (tasks s) = []
          \<or> is_loaded (eng s) \<and> (model (eng s) = Some h0 \<or> model (eng s) = Some h1)"
    by (simp_all add: loads_inv_def)
  from len obtain a b where ab: "tasks s = [a, b]"
    by (auto simp add: numeral_2_eq_2 length_Suc_conv)
  from assms(2) have d: "filter is_done (tasks s) = tasks s"
    by (simp add: all_done_def)
  then have "\<forall>t \<in> set (tasks s). is_done t" by (simp add: filter_id_conv)
  with ab have "is_done a" "is_done b" by simp_all
  with t0 t1 ab have "a = Done (Inr ())" "b = Done (Inr ())" by auto
  moreover from d ab have "filter is_done (tasks s) \<noteq> []" by auto
  ultimately show ?thesis using ab ld by simp
qed

lemma step_not_waiting:
  "\<not> (i < length (tasks s) \<and> is_waiting (tasks s ! i)) \<Longrightarrow> eng (step envs i s) = eng s"
  by (auto simp add: step_def split: task.splits prod.splits)

lemma step_resume:
  assumes "loads_inv mn dv h0 h1 s" and "i < length (tasks s)" and "is_waiting (tasks s ! i)"
  shows "model (eng (step envs i s)) = Some (if i = 0 then h0 else h1)"
proof -
  from assms(1) have len: "length (tasks s) = 2"
    and t0: "tasks s ! 0 \<in> {Start, Waiting (Inr h0), Done (Inr ())}"
    and t1: "tasks s ! 1 \<in> {Start, Waiting (Inr h1), Done (Inr ())}"
    by (simp_all add: loads_inv_def)
  from assms(2) len have "i = 0 \<or> i = Suc 0" by auto
  then show ?thesis
  proof
    assume i: "i = 0"
    with assms(3) t0 have "tasks s ! i = Waiting (Inr h0)" by auto
    with assms(2) i show ?thesis by (simp add: step_def load_model_finish_def)
  next
    assume i: "i = Suc 0"
    with assms(3) t1 have "tasks s ! i = Waiting (Inr h1)" by auto
    with assms(2) i show ?thesis by (simp add: step_def load_model_finish_def)
  qed
qed

lemma run_last_resumed:
  assumes c0: "tts_new (envs 0) mn dv = Inr h0"
    and c1: "tts_new (envs (Suc 0)) mn dv = Inr h1"
  shows "loads_inv mn dv h0 h1 s \<Longrightarrow>
         (if resumed envs sched s = [] then eng (run envs sched s) = eng s
          else model (eng (run envs sched s))
                 = Some (if last (resumed envs sched s) = 0 then h0 else h1))"
proof (induction sched arbitrary: s)
  case Nil
  then show ?case by (simp add: run_def)
next
  case (Cons i sched)
  let ?s = "step envs i s"
  have r: "run envs (i # sched) s = run envs sched ?s" by (simp add: run_def)
  have inv': "loads_inv mn dv h0 h1 ?s"
    using c0 c1 Cons.prems by (rule step_inv)
  note IH = Cons.IH [OF inv']
  show ?case
  proof (cases "resumed envs sched ?s = []")
    case False
    with IH show ?thesis unfolding r by simp
  next
    case True
    with IH have e: "eng (run envs sched ?s) = eng ?s" by simp
    show ?thesis
    proof (cases "i < length (tasks s) \<and> is_waiting (tasks s ! i)")
      case True
      with step_resume [OF Cons.prems, of i envs]
      have "model (eng ?s) = Some (if i = 0 then h0 else h1)" by simp
      with True \<open>resumed envs sched ?s = []\<close> e show ?thesis unfolding r by simp
    next
      case False
      with step_not_waiting [of i s envs] have "eng ?s = eng s" by simp
      with False \<open>resumed envs sched ?s = []\<close> e show ?thesis unfolding r by simp
    qed
  qed
qed

lemma step_done_count:
  "length (filter is_done (tasks (step envs i s)))
     = length (filter is_done (tasks s))
       + (if i < length (tasks s) \<and> is_waiting (tasks s ! i) then 1 else 0)"
proof (cases "i < length (tasks s)")
  case False
  then show ?thesis by (simp add: step_def)
next
  case True
  show ?thesis
  proof (cases "tasks s ! i")
    case Start
    have "length (filter is_done ((tasks s)[i := Waiting r])) = length (filter is_done (tasks s))" for r
      using count_update [OF True, of is_done "Waiting r"] Start by simp
    with True Start show ?thesis by (simp add: step_def split: prod.splits)
  next
    case (Waiting r)
    have "length (filter is_done ((tasks s)[i := Done res])) = length (filter is_done (tasks s)) + 1" for res
      using count_update [OF True, of is_done "Done res"] Waiting by simp
    with True Waiting show ?thesis by (simp add: step_def split: prod.splits)
  next
    case (Done res)
    with True show ?thesis by (simp add: step_def)
  qed
qed

lemma run_done_count:
  "length (filter is_done (tasks (run envs sched s)))
     = length (filter is_done (tasks s)) + length (resumed envs sched s)"
proof (induction sched arbitrary: s)
  case Nil
  then show ?case by (simp add: run_def)
next
  case (Cons i sched)
  have "run envs (i # sched) s = run envs sched (step envs i s)" by (simp add: run_def)
  with Cons.IH [of "step envs i s"] step_done_count [of envs i s]
  show ?case by simp
qed

lemma run_length [simp]: "length (tasks (run envs sched s)) = length (tasks s)"
proof (induction sched arbitrary: s)
  case Nil
  then show ?case by (simp add: run_def)
next
  case (Cons i sched)
  have "run envs (i # sched) s = run envs sched (step envs i s)" by (simp add: run_def)
  with Cons.IH [of "step envs i s"] show ?case by simp
qed

lemma all_done_resumed_twice:
  assumes "all_done (run envs sched (two_calls e w))"
  shows "length (resumed envs sched (two_calls e w)) = 2"
proof -
  let ?s = "run envs sched (two_calls e w)"
  from assms have "length (filter is_done (tasks ?s)) = length (tasks ?s)"
    by (simp add: all_done_def)
  then have "length (filter is_done (tasks ?s)) = 2" by (simp add: two_calls_def)
  with run_done_count [of envs sched "two_calls e w"] show ?thesis
    by (simp add: two_calls_def)
qed

text \<open>
  C9. Two calls of \<open>load_model\<close> on one engine, interleaved in any order and both
  run to their end, construct the model twice, once per call, and both pass
  their \<^verbatim>\<open>await\<close>. When both constructors succeed, both calls return normally
  and the engine is loaded at the end; the handle it holds is the handle
  constructed for the call that resumed last.
\<close>

theorem concurrent_loads_construct_twice:
  assumes "all_done (run envs sched (two_calls e w))"
  shows "constructions (wld (run envs sched (two_calls e w))) = constructions w + 2
       \<and> length (resumed envs sched (two_calls e w)) = 2
       \<and> (tts_new (envs 0) (model_name e) (device e) = Inr h0
            \<and> tts_new (envs 1) (model_name e) (device e) = Inr h1
          \<longrightarrow> tasks (run envs sched (two_calls e w)) = [Done (Inr ()), Done (Inr ())]
              \<and> is_loaded (eng (run envs sched (two_calls e w)))
              \<and> (model (eng (run envs sched (two_calls e w))) = Some h0
                  \<or> model (eng (run envs sched (two_calls e w))) = Some h1)
              \<and> model (eng (run envs sched (two_calls e w)))
                  = Some (if last (resumed envs sched (two_calls e w)) = 0 then h0 else h1))"
proof -
  let ?s = "run envs sched (two_calls e w)"
  let ?rs = "resumed envs sched (two_calls e w)"
  from run_pending [of envs sched "two_calls e w"] all_done_no_start [OF assms]
  have n: "constructions (wld ?s) = constructions w + 2"
    by (simp add: two_calls_def)
  have two: "length ?rs = 2" using assms by (rule all_done_resumed_twice)
  then have ne: "?rs \<noteq> []" by auto
  have "tasks ?s = [Done (Inr ()), Done (Inr ())]
        \<and> is_loaded (eng ?s) \<and> (model (eng ?s) = Some h0 \<or> model (eng ?s) = Some h1)
        \<and> model (eng ?s) = Some (if last ?rs = 0 then h0 else h1)"
    if c: "tts_new (envs 0) (model_name e) (device e) = Inr h0"
          "tts_new (envs 1) (model_name e) (device e) = Inr h1"
  proof -
    from c(2) have c1: "tts_new (envs (Suc 0)) (model_name e) (device e) = Inr h1" by simp
    from run_inv [OF c(1) c1 two_calls_inv]
    have "loads_inv (model_name e) (device e) h0 h1 ?s" .
    from inv_all_done [OF this assms]
    have a: "tasks ?s = [Done (Inr ()), Done (Inr ())]
        \<and> is_loaded (eng ?s) \<and> (model (eng ?s) = Some h0 \<or> model (eng ?s) = Some h1)" .
    have inv0: "loads_inv (model_name e) (device e) h0 h1 (two_calls e w)"
      by (rule two_calls_inv)
    from run_last_resumed [OF c(1) c1 inv0, of sched] ne
    have "model (eng ?s) = Some (if last ?rs = 0 then h0 else h1)" by simp
    with a show ?thesis by simp
  qed
  with n two show ?thesis by blast
qed

lemma example_run:
  "run example_envs [0, 1, 0, 1] (two_calls example_engine empty_world)
     = \<lparr>eng = example_engine\<lparr>model := Some (Handle 2), is_loaded := True\<rparr>,
        wld = \<lparr>files = {},
               events = [Construct ''tts_models/multilingual/multi-dataset/xtts_v2'' ''cpu'',
                         Construct ''tts_models/multilingual/multi-dataset/xtts_v2'' ''cpu'']\<rparr>,
        tasks = [Done (Inr ()), Done (Inr ())]\<rparr>"
  by (simp add: run_def step_def two_calls_def load_model_begin_def load_model_finish_def
        example_envs_def emit_def example_defs)

lemma example_run_other_order:
  "run example_envs [0, 1, 1, 0] (two_calls example_engine empty_world)
     = \<lparr>eng = example_engine\<lparr>model := Some (Handle 1), is_loaded := True\<rparr>,
        wld = \<lparr>files = {},
               events = [Construct ''tts_models/multilingual/multi-dataset/xtts_v2'' ''cpu'',
                         Construct ''tts_models/multilingual/multi-dataset/xtts_v2'' ''cpu'']\<rparr>,
        tasks = [Done (Inr ()), Done (Inr ())]\<rparr>"
  by (simp add: run_def step_def two_calls_def load_model_begin_def load_model_finish_def
        example_envs_def emit_def example_defs)

lemma example_resumed:
  "resumed example_envs [0, 1, 0, 1] (two_calls example_engine empty_world) = [0, 1]"
  by (simp add: step_def two_calls_def load_model_begin_def load_model_finish_def
        example_envs_def emit_def example_defs)

theorem concurrent_loads_construct_twice_witness:
  "all_done (run example_envs [0, 1, 0, 1] (two_calls example_engine empty_world))
   \<and> constructions (wld (run example_envs [0, 1, 0, 1] (two_calls example_engine empty_world)))
       = constructions empty_world + 2
   \<and> tts_new (example_envs 0) (model_name example_engine) (device example_engine) = Inr (Handle 1)
   \<and> tts_new (example_envs 1) (model_name example_engine) (device example_engine) = Inr (Handle 2)
   \<and> is_loaded (eng (run example_envs [0, 1, 0, 1] (two_calls example_engine empty_world)))
   \<and> last (resumed example_envs [0, 1, 0, 1] (two_calls example_engine empty_world)) = 1
   \<and> model (eng (run example_envs [0, 1, 0, 1] (two_calls example_engine empty_world)))
       = Some (Handle 2)"
proof -
  have a: "all_done (run example_envs [0, 1, 0, 1] (two_calls example_engine empty_world))"
    unfolding example_run by (simp add: all_done_def)
  have c: "tts_new (example_envs 0) (model_name example_engine) (device example_engine) = Inr (Handle 1)"
    "tts_new (example_envs 1) (model_name example_engine) (device example_engine) = Inr (Handle 2)"
    by (simp_all add: example_envs_def example_defs)
  have l: "last (resumed example_envs [0, 1, 0, 1] (two_calls example_engine empty_world)) = 1"
    unfolding example_resumed by simp
  from concurrent_loads_construct_twice [OF a, of "Handle 1" "Handle 2"] a c l
  show ?thesis by simp
qed

theorem single_flight_counterexample:
  "unloaded example_engine \<and> constructions empty_world = 0
   \<and> all_done (run example_envs [0, 1, 0, 1] (two_calls example_engine empty_world))
   \<and> constructions (wld (run example_envs [0, 1, 0, 1] (two_calls example_engine empty_world)))
       = 2"
  unfolding example_run
  by (simp add: all_done_def constructions_def unloaded_def example_defs)

end
